theory Spec2Isabelle
  imports Main "HOL-Library.Word"
begin

section \<open>The BM77 blood-pressure monitor controller\<close>

text \<open>
  A shallow embedding of the class \<open>BM77\<close> (device controller of the repository): the
  frame decoder \<open>convertBloodPressure\<close> with its helpers \<open>hex2bin\<close>,
  \<open>pulseRateConvert\<close>, \<open>HSDConvert\<close> and \<open>base64ToHex\<close>, and the callback-driven
  operations \<open>startScan\<close>, \<open>connect\<close>, \<open>discoverWithDelay\<close> and \<open>receiveData\<close>.
\<close>

subsection \<open>JavaScript values used by the decoder\<close>

text \<open>
  The decoder works on strings, on \<open>undefined\<close> (an array or string read out of range)
  and on numbers that are integers or not-a-number. Numbers are modelled as exact
  integers: the decoder only ever parses at most four hexadecimal digits, far below
  \<open>2^53\<close>, where doubles are exact.
\<close>

type_synonym byte = "8 word"

datatype jsnum = NaN | Num int

datatype jsval = Undefined | Str string | Number jsnum

text \<open>Digits of \<open>Number.prototype.toString(radix)\<close>: \<open>0-9\<close> then \<open>a-z\<close>.\<close>

definition digitChar :: "nat \<Rightarrow> char" where
  "digitChar d = (if d < 10 then char_of (48 + d) else char_of (87 + d))"

function digitsOf :: "nat \<Rightarrow> nat \<Rightarrow> string" where
  "digitsOf r n =
     (if r < 2 \<or> n < r then [digitChar n]
      else digitsOf r (n div r) @ [digitChar (n mod r)])"
  by pat_completeness auto
termination
  by (relation "measure (\<lambda>(r, n). n)") auto

declare digitsOf.simps [simp del]

text \<open>\<open>x.toString(radix)\<close> on a number.\<close>

fun numToString :: "nat \<Rightarrow> jsnum \<Rightarrow> string" where
  "numToString r NaN = ''NaN''"
| "numToString r (Num n) =
     (if n < 0 then CHR ''-'' # digitsOf r (nat (- n)) else digitsOf r (nat n))"

text \<open>The abstract operation \<open>ToString\<close>.\<close>

fun toString :: "jsval \<Rightarrow> string" where
  "toString Undefined = ''undefined''"
| "toString (Str s) = s"
| "toString (Number x) = numToString 10 x"

text \<open>The abstract operation \<open>ToNumber\<close>, on the values that reach \<open>+\<close> here.\<close>

fun numAdd :: "jsnum \<Rightarrow> jsnum \<Rightarrow> jsnum" where
  "numAdd (Num a) (Num b) = Num (a + b)"
| "numAdd _ _ = NaN"

text \<open>
  The operator \<open>+\<close>: string concatenation as soon as one operand is a string, numeric
  addition otherwise (\<open>undefined + undefined\<close> is \<open>NaN\<close>).
\<close>

fun jsPlus :: "jsval \<Rightarrow> jsval \<Rightarrow> jsval" where
  "jsPlus (Str a) y = Str (a @ toString y)"
| "jsPlus x (Str b) = Str (toString x @ b)"
| "jsPlus (Number a) (Number b) = Number (numAdd a b)"
| "jsPlus _ _ = Number NaN"

text \<open>Value of a character as a digit (\<open>0-9\<close>, \<open>a-z\<close>, \<open>A-Z\<close>), if it is one.\<close>

definition digitValue :: "char \<Rightarrow> nat option" where
  "digitValue c =
     (let n = (of_char c :: nat) in
      if 48 \<le> n \<and> n \<le> 57 then Some (n - 48)
      else if 97 \<le> n \<and> n \<le> 122 then Some (n - 87)
      else if 65 \<le> n \<and> n \<le> 90 then Some (n - 55)
      else None)"

text \<open>White space skipped by \<open>parseInt\<close> (the ASCII part: TAB, LF, VT, FF, CR, SP).\<close>

definition isSpace :: "char \<Rightarrow> bool" where
  "isSpace c = (let n = (of_char c :: nat) in (9 \<le> n \<and> n \<le> 13) \<or> n = 32)"

text \<open>
  The digits loop of \<open>parseInt\<close>: the longest prefix of radix-\<open>r\<close> digits, accumulated
  into its value; \<open>None\<close> when that prefix is empty.
\<close>

fun parseDigits :: "nat \<Rightarrow> string \<Rightarrow> nat option \<Rightarrow> nat option" where
  "parseDigits r [] acc = acc"
| "parseDigits r (c # cs) acc =
     (case digitValue c of
        None \<Rightarrow> acc
      | Some d \<Rightarrow>
          if d < r
          then parseDigits r cs (Some ((case acc of None \<Rightarrow> 0 | Some a \<Rightarrow> a) * r + d))
          else acc)"

text \<open>
  \<open>parseInt(x, 16)\<close>: \<open>ToString\<close> of the argument, leading white space dropped, an
  optional sign, an optional \<open>0x\<close>/\<open>0X\<close> prefix, then the digits; \<open>NaN\<close> when there is
  no digit.
\<close>

definition stripSign :: "string \<Rightarrow> bool \<times> string" where
  "stripSign s =
     (case s of
        [] \<Rightarrow> (False, [])
      | c # cs \<Rightarrow>
          if c = CHR ''-'' then (True, cs)
          else if c = CHR ''+'' then (False, cs)
          else (False, s))"

definition stripHexPrefix :: "string \<Rightarrow> string" where
  "stripHexPrefix s =
     (case s of
        c # d # cs \<Rightarrow>
          if c = CHR ''0'' \<and> (d = CHR ''x'' \<or> d = CHR ''X'') then cs else s
      | _ \<Rightarrow> s)"

definition parseInt16 :: "jsval \<Rightarrow> jsnum" where
  "parseInt16 x =
     (let s = dropWhile isSpace (toString x);
          (neg, s1) = stripSign s;
          s2 = stripHexPrefix s1
      in case parseDigits 16 s2 None of
           None \<Rightarrow> NaN
         | Some v \<Rightarrow> Num (if neg then - int v else int v))"

text \<open>\<open>arr[i]\<close> on an array of strings and \<open>s[i]\<close> on a string: \<open>undefined\<close> out of range.\<close>

definition elemAt :: "string list \<Rightarrow> nat \<Rightarrow> jsval" where
  "elemAt xs i = (if i < length xs then Str (xs ! i) else Undefined)"

definition charAt :: "string \<Rightarrow> nat \<Rightarrow> jsval" where
  "charAt s i = (if i < length s then Str [s ! i] else Undefined)"

text \<open>\<open>s.substr(-k)\<close>: the last \<open>k\<close> characters, or all of \<open>s\<close> when it is shorter.\<close>

definition substrFromEnd :: "nat \<Rightarrow> string \<Rightarrow> string" where
  "substrFromEnd k s = drop (length s - k) s"

subsection \<open>The decoder\<close>

record Measurement =
  header :: jsnum
  systolic :: jsnum
  diastolic :: jsnum
  meanArterialPressure :: jsnum
  year :: jsnum
  month :: jsnum
  day :: jsnum
  hours :: jsnum
  minutes :: jsnum
  seconds :: jsnum
  pulseRate :: jsnum
  userID :: jsnum
  bodyMovement :: string
  cuffFit :: string
  irregularPulse :: string
  pulseRateRange :: string
  measurementPosition :: string
  HSD :: string

definition pulseRateConvert :: "jsval \<Rightarrow> string" where
  "pulseRateConvert binary =
     (if binary = Str ''00'' then ''In range''
      else if binary = Str ''01'' then ''Exceeds upper limit''
      else if binary = Str ''10'' then ''Below lower limit''
      else ''Undefined'')"

definition HSDConvert :: "jsval \<Rightarrow> string" where
  "HSDConvert binary =
     (if binary = Str ''00'' then ''HSD not detected''
      else if binary = Str ''01'' then ''HSD detected''
      else if binary = Str ''10'' then ''Unable to judge''
      else ''Undefined'')"

definition hex2bin :: "jsval \<Rightarrow> string" where
  "hex2bin hexOneByte =
     substrFromEnd 8 (''00000000'' @ numToString 2 (parseInt16 hexOneByte))"

definition convertBloodPressure :: "string list \<Rightarrow> Measurement" where
  "convertBloodPressure hexArray =
     (let statusFlagsOne = hex2bin (elemAt hexArray 17) in
      \<lparr> header = parseInt16 (elemAt hexArray 0),
        systolic = parseInt16 (jsPlus (elemAt hexArray 2) (elemAt hexArray 1)),
        diastolic = parseInt16 (jsPlus (elemAt hexArray 4) (elemAt hexArray 3)),
        meanArterialPressure = parseInt16 (elemAt hexArray 5),
        year = parseInt16 (jsPlus (elemAt hexArray 8) (elemAt hexArray 7)),
        month = parseInt16 (elemAt hexArray 9),
        day = parseInt16 (elemAt hexArray 10),
        hours = parseInt16 (elemAt hexArray 11),
        minutes = parseInt16 (elemAt hexArray 12),
        seconds = parseInt16 (elemAt hexArray 13),
        pulseRate = parseInt16 (jsPlus (elemAt hexArray 15) (elemAt hexArray 14)),
        userID = parseInt16 (elemAt hexArray 16),
        bodyMovement =
          (if charAt statusFlagsOne 0 = Str ''0'' then ''No body movement''
           else ''Body movement''),
        cuffFit =
          (if charAt statusFlagsOne 1 = Str ''0'' then ''Cuff fits properly''
           else ''Cuff is too loose''),
        irregularPulse =
          (if charAt statusFlagsOne 2 = Str ''0'' then ''No irregular pulse''
           else ''Irregular pulse''),
        pulseRateRange =
          pulseRateConvert (jsPlus (charAt statusFlagsOne 3) (charAt statusFlagsOne 4)),
        measurementPosition =
          (if charAt statusFlagsOne 5 = Str ''0'' then ''Proper position''
           else ''Improper position''),
        HSD = HSDConvert (jsPlus (charAt statusFlagsOne 6) (charAt statusFlagsOne 7)) \<rparr>)"

subsection \<open>From the notification payload to the array of hexadecimal strings\<close>

text \<open>
  \<open>Buffer.from(base64, 'base64').toString('hex')\<close>: the decoding of the base64 text into
  bytes belongs to the \<open>buffer\<close> package and is a parameter \<open>dec\<close>; the rendering of the
  bytes is two lower-case hexadecimal digits each.
\<close>

definition byteHex :: "byte \<Rightarrow> string" where
  "byteHex b = [digitChar (unat b div 16), digitChar (unat b mod 16)]"

definition toHexString :: "byte list \<Rightarrow> string" where
  "toHexString bs = concat (map byteHex bs)"

text \<open>The loop \<open>for (i = 0; i < charsLength; i += 2) array.push(hexString.substring(i, i + 2))\<close>.\<close>

function pushPairs :: "string \<Rightarrow> nat \<Rightarrow> string list \<Rightarrow> string list" where
  "pushPairs hexString i array =
     (if i < length hexString
      then pushPairs hexString (i + 2) (array @ [take 2 (drop i hexString)])
      else array)"
  by pat_completeness auto
termination
  by (relation "measure (\<lambda>(s, i, a). length s - i)") auto

declare pushPairs.simps [simp del]

definition base64ToHex :: "(string \<Rightarrow> byte list) \<Rightarrow> string option \<Rightarrow> string list" where
  "base64ToHex dec base64 =
     (case base64 of
        None \<Rightarrow> []
      | Some b \<Rightarrow> pushPairs (toHexString (dec b)) 0 [])"

text \<open>
  The decoder on the raw bytes of a frame: what \<open>receiveData\<close> computes from a payload
  whose base64 text stands for the bytes \<open>frame\<close>.
\<close>

definition decode :: "byte list \<Rightarrow> Measurement" where
  "decode frame = convertBloodPressure (pushPairs (toHexString frame) 0 [])"

section \<open>The callback-driven operations\<close>

text \<open>
  The radio stack (\<open>react-native-ble-plx\<close>) and the JavaScript runtime are outside the
  repository. They are modelled at their interface: what they deliver to the callbacks of
  the class is an input (a list of events), and what the class does in response is the
  new state, with the calls it makes recorded in it.
\<close>

record BleError =
  errorCode :: nat
  message :: string

record Device =
  deviceId :: string
  name :: "string option"  \<comment> \<open>\<open>string | null\<close>\<close>

text \<open>A promise is pending until the first \<open>resolve\<close> or \<open>reject\<close>; later ones are ignored.\<close>

datatype ('e, 'a) promise = Pending | Fulfilled 'a | Rejected 'e

definition resolve :: "'a \<Rightarrow> ('e, 'a) promise \<Rightarrow> ('e, 'a) promise" where
  "resolve v p = (case p of Pending \<Rightarrow> Fulfilled v | _ \<Rightarrow> p)"

definition reject :: "'e \<Rightarrow> ('e, 'a) promise \<Rightarrow> ('e, 'a) promise" where
  "reject e p = (case p of Pending \<Rightarrow> Rejected e | _ \<Rightarrow> p)"

definition deviceName :: string where
  "deviceName = ''BM77''"

definition service :: string where
  "service = ''00001810-0000-1000-8000-00805f9b34fb''"

definition characteristicNotify :: string where
  "characteristicNotify = ''00002a35-0000-1000-8000-00805f9b34fb''"

subsection \<open>startScan\<close>

text \<open>
  The state of one scan: whether the stack is still scanning, how often
  \<open>stopDeviceScan\<close> was called, and the promise returned by \<open>startScan\<close>.
\<close>

record scan_state =
  scanning :: bool
  stopCalls :: nat
  scanResult :: "(BleError, Device) promise"

definition stopDeviceScan :: "scan_state \<Rightarrow> scan_state" where
  "stopDeviceScan st = st\<lparr>scanning := False, stopCalls := Suc (stopCalls st)\<rparr>"

text \<open>\<open>device?.name === this.deviceName\<close>: false for no device and for a \<open>null\<close> name.\<close>

definition nameMatches :: "Device option \<Rightarrow> bool" where
  "nameMatches device = (case device of None \<Rightarrow> False | Some d \<Rightarrow> name d = Some deviceName)"

text \<open>The listener passed to \<open>startDeviceScan\<close>: two consecutive \<open>if\<close> statements.\<close>

definition scanListener :: "BleError option \<Rightarrow> Device option \<Rightarrow> scan_state \<Rightarrow> scan_state" where
  "scanListener error device st =
     (let st1 = (case error of
                   None \<Rightarrow> st
                 | Some e \<Rightarrow> (stopDeviceScan st)\<lparr>scanResult := reject e (scanResult st)\<rparr>)
      in case device of
           None \<Rightarrow> st1
         | Some d \<Rightarrow>
             if nameMatches device
             then (stopDeviceScan st1)\<lparr>scanResult := resolve d (scanResult st1)\<rparr>
             else st1)"

text \<open>The stack calls the listener for each advertisement or error while the scan is on.\<close>

fun deliverScan :: "(BleError option \<times> Device option) list \<Rightarrow> scan_state \<Rightarrow> scan_state" where
  "deliverScan [] st = st"
| "deliverScan ((error, device) # evs) st =
     (if scanning st then deliverScan evs (scanListener error device st) else st)"

definition startScan :: "(BleError option \<times> Device option) list \<Rightarrow> scan_state" where
  "startScan evs = deliverScan evs \<lparr>scanning = True, stopCalls = 0, scanResult = Pending\<rparr>"

subsection \<open>connect and discoverWithDelay\<close>

datatype ConnectionStatus = CONNECTED | DISCONNECTED

text \<open>
  What the stack and the runtime deliver to one \<open>connect\<close> call, each at a time of the
  clock (milliseconds): the outcome of \<open>device.connect()\<close>, the run of the
  \<open>setTimeout\<close> callback, the outcome of \<open>discoverAllServicesAndCharacteristics()\<close>,
  and a disconnection event emitted for the device.
\<close>

datatype stack_event =
    ConnectSucceeded
  | ConnectFailed BleError
  | TimerFired
  | DiscoverSucceeded
  | DiscoverFailed BleError
  | DeviceDisconnected

text \<open>The calls made by \<open>connect\<close> and \<open>discoverWithDelay\<close>, in the order of the source.\<close>

datatype action =
    CallConnect
  | ConsoleLog string
  | SetTimeout nat
  | CallDiscover
  | RegisterOnDisconnected
  | OnDisconnect ConnectionStatus

text \<open>
  Where the \<open>connect\<close> call stands: suspended at \<open>await device.connect()\<close>; suspended at
  \<open>await this.discoverWithDelay(device)\<close> with the timer running (due at the given
  time) or with the discovery requested; returned, with the disconnect listener
  registered; rejected; or suspended for ever, on a promise that nothing settles.
\<close>

datatype stage =
    AwaitConnect
  | AwaitTimer nat
  | AwaitDiscover
  | Registered
  | Failed
  | Stuck

record conn_state =
  stage :: stage
  connectPromise :: "(BleError, unit) promise"
  discoverPromise :: "(BleError, unit) promise"
  trace :: "(nat \<times> action) list"

definition settleDelay :: nat where
  "settleDelay = 1600"

definition connectInit :: "nat \<Rightarrow> conn_state" where
  "connectInit t0 =
     \<lparr>stage = AwaitConnect, connectPromise = Pending, discoverPromise = Pending,
      trace = [(t0, CallConnect)]\<rparr>"

text \<open>
  One event, at time \<open>t\<close>.
  \<^item> \<open>device.connect()\<close> fulfilled: \<open>connect\<close> logs and calls \<open>discoverWithDelay\<close>, whose
    promise executor only sets the timer. Rejected: the \<open>await\<close> throws and the promise
    of \<open>connect\<close> is rejected.
  \<^item> The timer callback runs (the runtime runs it no earlier than its due time; an
    earlier \<open>TimerFired\<close> is not a behaviour of the runtime and changes nothing): it
    requests the discovery.
  \<^item> The discovery fulfilled: the callback calls \<open>resolve\<close> and logs; \<open>connect\<close> resumes,
    registers the disconnect listener and returns. Rejected: the \<open>await\<close> inside the
    timer callback throws, so \<open>resolve\<close> is never called; the promise executor was given
    no \<open>reject\<close>, the promise of \<open>discoverWithDelay\<close> stays pending and \<open>connect\<close> never
    resumes.
  \<^item> A disconnection event: the listener, once registered and never removed, logs and
    calls \<open>onDisconnect(ConnectionStatus.DISCONNECTED)\<close>.
  An event that the stage does not wait for changes nothing.
\<close>

fun connectStep :: "conn_state \<Rightarrow> nat \<times> stack_event \<Rightarrow> conn_state" where
  "connectStep st (t, ConnectSucceeded) =
     (if stage st = AwaitConnect
      then st\<lparr>stage := AwaitTimer (t + settleDelay),
              trace := trace st @ [(t, ConsoleLog ''Device was connected''),
                                   (t, SetTimeout settleDelay)]\<rparr>
      else st)"
| "connectStep st (t, ConnectFailed e) =
     (if stage st = AwaitConnect
      then st\<lparr>stage := Failed, connectPromise := reject e (connectPromise st)\<rparr>
      else st)"
| "connectStep st (t, TimerFired) =
     (case stage st of
        AwaitTimer due \<Rightarrow>
          if due \<le> t
          then st\<lparr>stage := AwaitDiscover, trace := trace st @ [(t, CallDiscover)]\<rparr>
          else st
      | _ \<Rightarrow> st)"
| "connectStep st (t, DiscoverSucceeded) =
     (if stage st = AwaitDiscover
      then st\<lparr>stage := Registered,
              discoverPromise := resolve () (discoverPromise st),
              connectPromise := resolve () (connectPromise st),
              trace := trace st @
                [(t, ConsoleLog ''Services and characteristics were discovered''),
                 (t, RegisterOnDisconnected)]\<rparr>
      else st)"
| "connectStep st (t, DiscoverFailed e) =
     (if stage st = AwaitDiscover then st\<lparr>stage := Stuck\<rparr> else st)"
| "connectStep st (t, DeviceDisconnected) =
     (if stage st = Registered
      then st\<lparr>trace := trace st @ [(t, ConsoleLog ''Device was disconnected''),
                                   (t, OnDisconnect DISCONNECTED)]\<rparr>
      else st)"

definition connect :: "nat \<Rightarrow> (nat \<times> stack_event) list \<Rightarrow> conn_state" where
  "connect t0 evs = foldl connectStep (connectInit t0) evs"

text \<open>The invocations of the caller's \<open>onDisconnect\<close> recorded in a trace.\<close>

definition onDisconnectCalls :: "(nat \<times> action) list \<Rightarrow> (nat \<times> action) list" where
  "onDisconnectCalls tr = filter (\<lambda>(t, a). case a of OnDisconnect s \<Rightarrow> True | _ \<Rightarrow> False) tr"

subsection \<open>receiveData\<close>

record Characteristic =
  charValue :: "string option"  \<comment> \<open>\<open>value: string | null\<close>, base64\<close>

text \<open>The calls of the caller's callbacks.\<close>

datatype callback = OnError BleError | OnData Measurement

text \<open>\<open>result?.value\<close> as a condition: there is a result, its value is not \<open>null\<close> and not \<open>''\<close>.\<close>

definition truthyValue :: "Characteristic option \<Rightarrow> string option" where
  "truthyValue result =
     (case result of
        None \<Rightarrow> None
      | Some c \<Rightarrow> (case charValue c of None \<Rightarrow> None | Some v \<Rightarrow> if v = [] then None else Some v))"

text \<open>
  The listener passed to \<open>monitorCharacteristicForService\<close>: two consecutive \<open>if\<close>
  statements; the calls it makes, in order.
\<close>

definition monitorListener ::
  "(string \<Rightarrow> byte list) \<Rightarrow> BleError option \<Rightarrow> Characteristic option \<Rightarrow> callback list" where
  "monitorListener dec error result =
     (case error of None \<Rightarrow> [] | Some e \<Rightarrow> [OnError e]) @
     (case truthyValue result of
        None \<Rightarrow> []
      | Some v \<Rightarrow>
          (let measurementInHex = base64ToHex dec (Some v);
               measurement = convertBloodPressure measurementInHex
           in [OnData measurement]))"

text \<open>
  The stack: the monitors it holds, each under the handle (\<open>Subscription\<close>) that
  \<open>monitorCharacteristicForService\<close> returns, and the calls made so far by the listeners.
\<close>

record ble_stack =
  monitors :: "(nat \<times> string \<times> string) list"
  calls :: "callback list"

definition monitorCharacteristicForService ::
  "string \<Rightarrow> string \<Rightarrow> ble_stack \<Rightarrow> nat \<times> ble_stack" where
  "monitorCharacteristicForService svc chr st =
     (let h = length (monitors st)
      in (h, st\<lparr>monitors := monitors st @ [(h, svc, chr)]\<rparr>))"

text \<open>
  \<open>receiveData\<close> calls \<open>monitorCharacteristicForService\<close> and has no \<open>return\<close>
  statement: the value it returns (through its promise) is \<open>undefined\<close>, here \<open>None\<close>,
  and the \<open>Subscription\<close> is dropped.
\<close>

definition receiveData :: "ble_stack \<Rightarrow> nat option \<times> ble_stack" where
  "receiveData st =
     (let (subscription, st') = monitorCharacteristicForService service characteristicNotify st
      in (None, st'))"

text \<open>
  The stack delivers a notification to the listener of every monitor it holds on the
  characteristic.
\<close>

fun notify ::
  "(string \<Rightarrow> byte list) \<Rightarrow> (BleError option \<times> Characteristic option) list \<Rightarrow> ble_stack \<Rightarrow> ble_stack" where
  "notify dec [] st = st"
| "notify dec ((error, result) # ns) st =
     notify dec ns
       (st\<lparr>calls := calls st @
            concat (map (\<lambda>m. monitorListener dec error result)
              (filter (\<lambda>(h, svc, chr). svc = service \<and> chr = characteristicNotify) (monitors st)))\<rparr>)"

subsection \<open>Auxiliary function for the proofs\<close>

text \<open>The \<open>k\<close>-digit binary numeral of \<open>n\<close>, most significant digit first.\<close>

fun binStr :: "nat \<Rightarrow> nat \<Rightarrow> string" where
  "binStr 0 n = []"
| "binStr (Suc k) n = binStr k (n div 2) @ [digitChar (n mod 2)]"


section \<open>Properties of the decoder\<close>

subsection \<open>The array of hexadecimal strings\<close>

lemma pushPairs_append:
  "pushPairs (p @ toHexString bs) (length p) acc = acc @ map byteHex bs"
proof (induction bs arbitrary: p acc)
  case Nil
  show ?case by (simp add: toHexString_def pushPairs.simps)
next
  case (Cons b bs)
  have step: "pushPairs (p @ toHexString (b # bs)) (length p) acc =
        pushPairs ((p @ byteHex b) @ toHexString bs) (length (p @ byteHex b)) (acc @ [byteHex b])"
    by (subst pushPairs.simps) (simp add: toHexString_def byteHex_def)
  show ?case unfolding step Cons.IH by simp
qed

lemma pushPairs_toHexString: "pushPairs (toHexString bs) 0 [] = map byteHex bs"
  using pushPairs_append [of "[]" bs "[]"] by simp

lemma digitValue_digitChar: "d < 16 \<Longrightarrow> digitValue (digitChar d) = Some d"
  by (simp add: digitValue_def digitChar_def Let_def)

lemma digitChar_not_space: "d < 16 \<Longrightarrow> \<not> isSpace (digitChar d)"
  by (simp add: isSpace_def digitChar_def Let_def)

lemma digitChar_not_sign: "d < 16 \<Longrightarrow> digitChar d \<noteq> CHR ''-'' \<and> digitChar d \<noteq> CHR ''+''"
  using digitValue_digitChar [of d] by (auto simp: digitValue_def)

lemma digitChar_not_x: "d < 16 \<Longrightarrow> digitChar d \<noteq> CHR ''x'' \<and> digitChar d \<noteq> CHR ''X''"
  using digitValue_digitChar [of d] by (auto simp: digitValue_def)

subsection \<open>Parsing and printing bytes\<close>

lemma parseInt16_two_digits:
  assumes "a < 16" "b < 16"
  shows "parseInt16 (Str [digitChar a, digitChar b]) = Num (int (a * 16 + b))"
  using assms digitChar_not_space [of a] digitChar_not_sign [of a] digitChar_not_x [of b]
  by (simp add: parseInt16_def stripSign_def stripHexPrefix_def digitValue_digitChar)

lemma parseInt16_four_digits:
  assumes "a < 16" "b < 16" "c < 16" "d < 16"
  shows "parseInt16 (Str [digitChar a, digitChar b, digitChar c, digitChar d]) =
         Num (int (((a * 16 + b) * 16 + c) * 16 + d))"
  using assms digitChar_not_space [of a] digitChar_not_sign [of a] digitChar_not_x [of b]
  by (simp add: parseInt16_def stripSign_def stripHexPrefix_def digitValue_digitChar)

lemma unat_byte_split: "unat (b :: byte) div 16 * 16 + unat b mod 16 = unat b"
  by simp

lemma unat_byte_div16: "unat (b :: byte) div 16 < 16"
proof -
  have "unat b < 256" using unsigned_less [of b, where ?'a = nat] by simp
  then show ?thesis by simp
qed

lemma parseInt16_byteHex: "parseInt16 (Str (byteHex b)) = Num (uint b)"
  using parseInt16_two_digits [of "unat b div 16" "unat b mod 16"] unat_byte_div16 [of b]
  by (simp add: byteHex_def)

lemma parseInt16_byteHex2:
  "parseInt16 (Str (byteHex hi @ byteHex lo)) = Num (uint lo + 256 * uint hi)"
proof -
  have "parseInt16 (Str (byteHex hi @ byteHex lo)) =
        Num (int (((unat hi div 16 * 16 + unat hi mod 16) * 16 + unat lo div 16) * 16 + unat lo mod 16))"
    using parseInt16_four_digits [of "unat hi div 16" "unat hi mod 16" "unat lo div 16" "unat lo mod 16"]
      unat_byte_div16 [of hi] unat_byte_div16 [of lo]
    by (simp add: byteHex_def)
  also have "((unat hi div 16 * 16 + unat hi mod 16) * 16 + unat lo div 16) * 16 + unat lo mod 16
     = unat lo + 256 * unat hi"
    by (simp only: unat_byte_split) (simp add: algebra_simps)
  finally show ?thesis by simp
qed

lemma digitChar_0: "digitChar 0 = CHR ''0''"
  by code_simp

lemma digitChar_1: "digitChar (Suc 0) = CHR ''1''"
  by code_simp

lemma binStr_zero: "binStr k 0 = replicate k (CHR ''0'')"
  by (induction k) (simp_all add: digitChar_0 replicate_append_same)

lemma drop_digitsOf:
  "n < 2 ^ k \<Longrightarrow>
   drop (length (digitsOf 2 n)) (replicate k (CHR ''0'') @ digitsOf 2 n) = binStr k n"
proof (induction k arbitrary: n)
  case 0
  then show ?case by simp
next
  case (Suc k)
  show ?case
  proof (cases "n < 2")
    case True
    then have "digitsOf 2 n = [digitChar n]" by (simp add: digitsOf.simps)
    with True show ?thesis by (simp add: binStr_zero)
  next
    case False
    then have d: "digitsOf 2 n = digitsOf 2 (n div 2) @ [digitChar (n mod 2)]"
      by (subst digitsOf.simps) simp
    from Suc.prems have "n div 2 < 2 ^ k" by simp
    from Suc.IH [OF this] show ?thesis by (simp add: d)
  qed
qed

lemma hex2bin_byteHex: "hex2bin (Str (byteHex b)) = binStr 8 (unat b)"
proof -
  have "unat b < 2 ^ 8" using unsigned_less [of b, where ?'a = nat] by simp
  from drop_digitsOf [OF this] show ?thesis
    by (simp add: hex2bin_def parseInt16_byteHex substrFromEnd_def eval_nat_numeral)
qed

lemma decode_map: "decode frame = convertBloodPressure (map byteHex frame)"
  by (simp add: decode_def pushPairs_toHexString)

lemma elemAt_map_byteHex:
  "elemAt (map byteHex frame) i = (if i < length frame then Str (byteHex (frame ! i)) else Undefined)"
  by (simp add: elemAt_def)

lemma word_bit_odd: "bit (b :: byte) i \<longleftrightarrow> odd (unat b div 2 ^ i)"
proof -
  have "bit b i \<longleftrightarrow> bit (unat b) i" by (simp add: bit_unsigned_iff)
  then show ?thesis by (simp add: bit_iff_odd)
qed

lemma digitChar_mod2: "digitChar (m mod 2) = (if odd m then CHR ''1'' else CHR ''0'')"
  by (cases "odd m") (simp_all add: digitChar_0 digitChar_1 odd_iff_mod_2_eq_one)

lemma binStr_8:
  "binStr 8 n =
     [digitChar (n div 128 mod 2), digitChar (n div 64 mod 2), digitChar (n div 32 mod 2),
      digitChar (n div 16 mod 2), digitChar (n div 8 mod 2), digitChar (n div 4 mod 2),
      digitChar (n div 2 mod 2), digitChar (n mod 2)]"
proof -
  have e: "(8::nat) = Suc (Suc (Suc (Suc (Suc (Suc (Suc (Suc 0)))))))" by simp
  show ?thesis unfolding e by (simp add: div_mult2_eq [symmetric])
qed

lemma hex2bin_bits:
  "hex2bin (Str (byteHex b)) =
     map (\<lambda>i. if bit b i then CHR ''1'' else CHR ''0'') [7, 6, 5, 4, 3, 2, 1, 0]"
  by (simp add: hex2bin_byteHex binStr_8 digitChar_mod2 word_bit_odd)

lemma parseInt16_Undefined: "parseInt16 Undefined = NaN"
  by (simp add: parseInt16_def stripSign_def stripHexPrefix_def isSpace_def digitValue_def)

lemma parseInt16_Undefined_Str: "parseInt16 (jsPlus Undefined (Str s)) = NaN"
  by (simp add: parseInt16_def stripSign_def stripHexPrefix_def isSpace_def digitValue_def)

lemma parseInt16_NaN: "parseInt16 (Number NaN) = NaN"
  by (simp add: parseInt16_def stripSign_def stripHexPrefix_def isSpace_def digitValue_def)

lemma hex2bin_Undefined: "hex2bin Undefined = ''00000NaN''"
  by (simp add: hex2bin_def parseInt16_Undefined substrFromEnd_def)

subsection \<open>The fields of a full frame\<close>

text \<open>
  Claim C1. For every 20-byte frame the numeric fields of the decoded measurement are
  positional: header is byte 0, systolic the little-endian 16-bit value of bytes 1-2 (low
  byte at offset 1), diastolic that of bytes 3-4, meanArterialPressure byte 5, year the
  little-endian value of bytes 7-8, month, day, hours, minutes and seconds bytes 9 to 13,
  pulseRate the little-endian value of bytes 14-15, and userID byte 16. Byte 6 has no
  influence: overwriting it with any value leaves the whole measurement unchanged.
\<close>

theorem decode_fields_positional:
  assumes "length frame = 20"
  shows "header (decode frame) = Num (uint (frame ! 0)) \<and>
         systolic (decode frame) = Num (uint (frame ! 1) + 256 * uint (frame ! 2)) \<and>
         diastolic (decode frame) = Num (uint (frame ! 3) + 256 * uint (frame ! 4)) \<and>
         meanArterialPressure (decode frame) = Num (uint (frame ! 5)) \<and>
         year (decode frame) = Num (uint (frame ! 7) + 256 * uint (frame ! 8)) \<and>
         month (decode frame) = Num (uint (frame ! 9)) \<and>
         day (decode frame) = Num (uint (frame ! 10)) \<and>
         hours (decode frame) = Num (uint (frame ! 11)) \<and>
         minutes (decode frame) = Num (uint (frame ! 12)) \<and>
         seconds (decode frame) = Num (uint (frame ! 13)) \<and>
         pulseRate (decode frame) = Num (uint (frame ! 14) + 256 * uint (frame ! 15)) \<and>
         userID (decode frame) = Num (uint (frame ! 16)) \<and>
         (\<forall>x. decode (frame[6 := x]) = decode frame)"
proof -
  have fields: "header (decode frame) = Num (uint (frame ! 0))"
    "systolic (decode frame) = Num (uint (frame ! 1) + 256 * uint (frame ! 2))"
    "diastolic (decode frame) = Num (uint (frame ! 3) + 256 * uint (frame ! 4))"
    "meanArterialPressure (decode frame) = Num (uint (frame ! 5))"
    "year (decode frame) = Num (uint (frame ! 7) + 256 * uint (frame ! 8))"
    "month (decode frame) = Num (uint (frame ! 9))"
    "day (decode frame) = Num (uint (frame ! 10))"
    "hours (decode frame) = Num (uint (frame ! 11))"
    "minutes (decode frame) = Num (uint (frame ! 12))"
    "seconds (decode frame) = Num (uint (frame ! 13))"
    "pulseRate (decode frame) = Num (uint (frame ! 14) + 256 * uint (frame ! 15))"
    "userID (decode frame) = Num (uint (frame ! 16))"
    using assms by (simp_all add: decode_map convertBloodPressure_def elemAt_map_byteHex Let_def
      parseInt16_byteHex parseInt16_byteHex2)
  have "decode (frame[6 := x]) = decode frame" for x
    using assms by (simp add: decode_map convertBloodPressure_def elemAt_map_byteHex)
  with fields show ?thesis by blast
qed

theorem decode_fields_positional_witness:
  "length [1, 2, 3, 4, 5, 6, 7, 8, 9, 10, 11, 12, 13, 14, 15, 16, 17, 18, 19, 20 :: byte] = 20 \<and>
   header (decode [1, 2, 3, 4, 5, 6, 7, 8, 9, 10, 11, 12, 13, 14, 15, 16, 17, 18, 19, 20]) = Num 1 \<and>
   systolic (decode [1, 2, 3, 4, 5, 6, 7, 8, 9, 10, 11, 12, 13, 14, 15, 16, 17, 18, 19, 20]) = Num 770 \<and>
   year (decode [1, 2, 3, 4, 5, 6, 7, 8, 9, 10, 11, 12, 13, 14, 15, 16, 17, 18, 19, 20]) = Num 2312 \<and>
   decode ([1, 2, 3, 4, 5, 6, 7, 8, 9, 10, 11, 12, 13, 14, 15, 16, 17, 18, 19, 20][6 := 99]) =
   decode [1, 2, 3, 4, 5, 6, 7, 8, 9, 10, 11, 12, 13, 14, 15, 16, 17, 18, 19, 20]"
proof -
  let ?f = "[1, 2, 3, 4, 5, 6, 7, 8, 9, 10, 11, 12, 13, 14, 15, 16, 17, 18, 19, 20 :: byte]"
  have len: "length ?f = 20" by simp
  have nths: "?f ! 0 = 1" "?f ! 1 = 2" "?f ! 2 = 3" "?f ! 7 = 8" "?f ! 8 = 9" by simp_all
  from decode_fields_positional [OF len]
  have "header (decode ?f) = Num (uint (?f ! 0))"
    "systolic (decode ?f) = Num (uint (?f ! 1) + 256 * uint (?f ! 2))"
    "year (decode ?f) = Num (uint (?f ! 7) + 256 * uint (?f ! 8))"
    "decode (?f[6 := 99]) = decode ?f"
    by blast+
  then show ?thesis unfolding nths using len by simp
qed

subsection \<open>The status byte\<close>

text \<open>
  Claim C2. For every byte \<open>b\<close> at offset 17 of a frame, the status fields are read from
  the eight binary digits of \<open>b\<close>, most significant first: digit 0 of that expansion is
  bit 7 of \<open>b\<close> and digit 7 is bit 0. bodyMovement comes from digit 0, cuffFit from digit 1,
  irregularPulse from digit 2, pulseRateRange from the two-digit code of digits 3-4
  (00 in range, 01 exceeds upper limit, 10 below lower limit, 11 undefined),
  measurementPosition from digit 5, and HSD from the two-digit code of digits 6-7
  (00 not detected, 01 detected, 10 unable to judge, 11 undefined).
\<close>

theorem status_byte_decoding:
  assumes "length frame = 20" and "frame ! 17 = b"
  shows "bodyMovement (decode frame) = (if bit b 7 then ''Body movement'' else ''No body movement'') \<and>
         cuffFit (decode frame) = (if bit b 6 then ''Cuff is too loose'' else ''Cuff fits properly'') \<and>
         irregularPulse (decode frame) = (if bit b 5 then ''Irregular pulse'' else ''No irregular pulse'') \<and>
         pulseRateRange (decode frame) =
           (if bit b 4 then (if bit b 3 then ''Undefined'' else ''Below lower limit'')
            else (if bit b 3 then ''Exceeds upper limit'' else ''In range'')) \<and>
         measurementPosition (decode frame) =
           (if bit b 2 then ''Improper position'' else ''Proper position'') \<and>
         HSD (decode frame) =
           (if bit b 1 then (if bit b 0 then ''Undefined'' else ''Unable to judge'')
            else (if bit b 0 then ''HSD detected'' else ''HSD not detected''))"
proof -
  have e17: "elemAt (map byteHex frame) 17 = Str (byteHex b)"
    using assms by (simp add: elemAt_def)
  have flags: "hex2bin (elemAt (map byteHex frame) 17) =
      map (\<lambda>i. if bit b i then CHR ''1'' else CHR ''0'') [7, 6, 5, 4, 3, 2, 1, 0]"
    by (simp only: e17 hex2bin_bits)
  have "bodyMovement (decode frame) = (if bit b 7 then ''Body movement'' else ''No body movement'')"
    by (simp add: decode_map convertBloodPressure_def Let_def flags charAt_def)
  moreover have "cuffFit (decode frame) = (if bit b 6 then ''Cuff is too loose'' else ''Cuff fits properly'')"
    by (simp add: decode_map convertBloodPressure_def Let_def flags charAt_def)
  moreover have "irregularPulse (decode frame) = (if bit b 5 then ''Irregular pulse'' else ''No irregular pulse'')"
    by (simp add: decode_map convertBloodPressure_def Let_def flags charAt_def)
  moreover have "pulseRateRange (decode frame) =
           (if bit b 4 then (if bit b 3 then ''Undefined'' else ''Below lower limit'')
            else (if bit b 3 then ''Exceeds upper limit'' else ''In range''))"
    by (simp add: decode_map convertBloodPressure_def Let_def flags charAt_def pulseRateConvert_def)
  moreover have "measurementPosition (decode frame) =
           (if bit b 2 then ''Improper position'' else ''Proper position'')"
    by (simp add: decode_map convertBloodPressure_def Let_def flags charAt_def)
  moreover have "HSD (decode frame) =
           (if bit b 1 then (if bit b 0 then ''Undefined'' else ''Unable to judge'')
            else (if bit b 0 then ''HSD detected'' else ''HSD not detected''))"
    by (simp add: decode_map convertBloodPressure_def Let_def flags charAt_def HSDConvert_def)
  ultimately show ?thesis by blast
qed

theorem status_byte_decoding_witness:
  "length [0x00, 0x78, 0x00, 0x50, 0x00, 0x00, 0x00, 0xE7, 0x07, 0x06, 0x0F, 0x0A, 0x1E, 0x00, 0x48, 0x00, 0x00, 0xA5, 0x00, 0x00 :: byte] = 20 \<and>
   [0x00, 0x78, 0x00, 0x50, 0x00, 0x00, 0x00, 0xE7, 0x07, 0x06, 0x0F, 0x0A, 0x1E, 0x00, 0x48, 0x00, 0x00, 0xA5, 0x00, 0x00 :: byte] ! 17 = 0xA5 \<and>
   bodyMovement (decode [0x00, 0x78, 0x00, 0x50, 0x00, 0x00, 0x00, 0xE7, 0x07, 0x06, 0x0F, 0x0A, 0x1E, 0x00, 0x48, 0x00, 0x00, 0xA5, 0x00, 0x00 :: byte]) = ''Body movement'' \<and>
   cuffFit (decode [0x00, 0x78, 0x00, 0x50, 0x00, 0x00, 0x00, 0xE7, 0x07, 0x06, 0x0F, 0x0A, 0x1E, 0x00, 0x48, 0x00, 0x00, 0xA5, 0x00, 0x00 :: byte]) = ''Cuff fits properly'' \<and>
   irregularPulse (decode [0x00, 0x78, 0x00, 0x50, 0x00, 0x00, 0x00, 0xE7, 0x07, 0x06, 0x0F, 0x0A, 0x1E, 0x00, 0x48, 0x00, 0x00, 0xA5, 0x00, 0x00 :: byte]) = ''Irregular pulse'' \<and>
   pulseRateRange (decode [0x00, 0x78, 0x00, 0x50, 0x00, 0x00, 0x00, 0xE7, 0x07, 0x06, 0x0F, 0x0A, 0x1E, 0x00, 0x48, 0x00, 0x00, 0xA5, 0x00, 0x00 :: byte]) = ''In range'' \<and>
   measurementPosition (decode [0x00, 0x78, 0x00, 0x50, 0x00, 0x00, 0x00, 0xE7, 0x07, 0x06, 0x0F, 0x0A, 0x1E, 0x00, 0x48, 0x00, 0x00, 0xA5, 0x00, 0x00 :: byte]) = ''Improper position'' \<and>
   HSD (decode [0x00, 0x78, 0x00, 0x50, 0x00, 0x00, 0x00, 0xE7, 0x07, 0x06, 0x0F, 0x0A, 0x1E, 0x00, 0x48, 0x00, 0x00, 0xA5, 0x00, 0x00 :: byte]) = ''HSD detected''"
proof -
  let ?g = "[0x00, 0x78, 0x00, 0x50, 0x00, 0x00, 0x00, 0xE7, 0x07, 0x06, 0x0F, 0x0A, 0x1E, 0x00, 0x48, 0x00, 0x00, 0xA5, 0x00, 0x00 :: byte]"
  have len: "length ?g = 20" by simp
  have st: "?g ! 17 = 0xA5" by simp
  have bits: "bit (0xA5 :: byte) 7" "\<not> bit (0xA5 :: byte) 6" "bit (0xA5 :: byte) 5"
    "\<not> bit (0xA5 :: byte) 4" "\<not> bit (0xA5 :: byte) 3" "bit (0xA5 :: byte) 2"
    "\<not> bit (0xA5 :: byte) 1" "bit (0xA5 :: byte) 0"
    by (simp_all add: word_bit_odd)
  from status_byte_decoding [OF len st] len st show ?thesis
    by (simp only: bits if_True if_False simp_thms)
qed

text \<open>
  Claim C3. The frame 00 78 00 50 00 00 00 E7 07 06 0F 0A 1E 00 48 00 00 00 00 00 decodes
  to systolic 120, diastolic 80, the date 2023-06-15 10:30:00, pulse rate 72, user 0, and
  every status field at its "no issue" value.
\<close>

theorem decode_example_frame:
  "systolic (decode [0x00, 0x78, 0x00, 0x50, 0x00, 0x00, 0x00, 0xE7, 0x07, 0x06, 0x0F, 0x0A, 0x1E, 0x00, 0x48, 0x00, 0x00, 0x00, 0x00, 0x00]) = Num 120 \<and>
   diastolic (decode [0x00, 0x78, 0x00, 0x50, 0x00, 0x00, 0x00, 0xE7, 0x07, 0x06, 0x0F, 0x0A, 0x1E, 0x00, 0x48, 0x00, 0x00, 0x00, 0x00, 0x00]) = Num 80 \<and>
   year (decode [0x00, 0x78, 0x00, 0x50, 0x00, 0x00, 0x00, 0xE7, 0x07, 0x06, 0x0F, 0x0A, 0x1E, 0x00, 0x48, 0x00, 0x00, 0x00, 0x00, 0x00]) = Num 2023 \<and>
   month (decode [0x00, 0x78, 0x00, 0x50, 0x00, 0x00, 0x00, 0xE7, 0x07, 0x06, 0x0F, 0x0A, 0x1E, 0x00, 0x48, 0x00, 0x00, 0x00, 0x00, 0x00]) = Num 6 \<and>
   day (decode [0x00, 0x78, 0x00, 0x50, 0x00, 0x00, 0x00, 0xE7, 0x07, 0x06, 0x0F, 0x0A, 0x1E, 0x00, 0x48, 0x00, 0x00, 0x00, 0x00, 0x00]) = Num 15 \<and>
   hours (decode [0x00, 0x78, 0x00, 0x50, 0x00, 0x00, 0x00, 0xE7, 0x07, 0x06, 0x0F, 0x0A, 0x1E, 0x00, 0x48, 0x00, 0x00, 0x00, 0x00, 0x00]) = Num 10 \<and>
   minutes (decode [0x00, 0x78, 0x00, 0x50, 0x00, 0x00, 0x00, 0xE7, 0x07, 0x06, 0x0F, 0x0A, 0x1E, 0x00, 0x48, 0x00, 0x00, 0x00, 0x00, 0x00]) = Num 30 \<and>
   seconds (decode [0x00, 0x78, 0x00, 0x50, 0x00, 0x00, 0x00, 0xE7, 0x07, 0x06, 0x0F, 0x0A, 0x1E, 0x00, 0x48, 0x00, 0x00, 0x00, 0x00, 0x00]) = Num 0 \<and>
   pulseRate (decode [0x00, 0x78, 0x00, 0x50, 0x00, 0x00, 0x00, 0xE7, 0x07, 0x06, 0x0F, 0x0A, 0x1E, 0x00, 0x48, 0x00, 0x00, 0x00, 0x00, 0x00]) = Num 72 \<and>
   userID (decode [0x00, 0x78, 0x00, 0x50, 0x00, 0x00, 0x00, 0xE7, 0x07, 0x06, 0x0F, 0x0A, 0x1E, 0x00, 0x48, 0x00, 0x00, 0x00, 0x00, 0x00]) = Num 0 \<and>
   bodyMovement (decode [0x00, 0x78, 0x00, 0x50, 0x00, 0x00, 0x00, 0xE7, 0x07, 0x06, 0x0F, 0x0A, 0x1E, 0x00, 0x48, 0x00, 0x00, 0x00, 0x00, 0x00]) = ''No body movement'' \<and>
   cuffFit (decode [0x00, 0x78, 0x00, 0x50, 0x00, 0x00, 0x00, 0xE7, 0x07, 0x06, 0x0F, 0x0A, 0x1E, 0x00, 0x48, 0x00, 0x00, 0x00, 0x00, 0x00]) = ''Cuff fits properly'' \<and>
   irregularPulse (decode [0x00, 0x78, 0x00, 0x50, 0x00, 0x00, 0x00, 0xE7, 0x07, 0x06, 0x0F, 0x0A, 0x1E, 0x00, 0x48, 0x00, 0x00, 0x00, 0x00, 0x00]) = ''No irregular pulse'' \<and>
   pulseRateRange (decode [0x00, 0x78, 0x00, 0x50, 0x00, 0x00, 0x00, 0xE7, 0x07, 0x06, 0x0F, 0x0A, 0x1E, 0x00, 0x48, 0x00, 0x00, 0x00, 0x00, 0x00]) = ''In range'' \<and>
   measurementPosition (decode [0x00, 0x78, 0x00, 0x50, 0x00, 0x00, 0x00, 0xE7, 0x07, 0x06, 0x0F, 0x0A, 0x1E, 0x00, 0x48, 0x00, 0x00, 0x00, 0x00, 0x00]) = ''Proper position'' \<and>
   HSD (decode [0x00, 0x78, 0x00, 0x50, 0x00, 0x00, 0x00, 0xE7, 0x07, 0x06, 0x0F, 0x0A, 0x1E, 0x00, 0x48, 0x00, 0x00, 0x00, 0x00, 0x00]) = ''HSD not detected''"
proof -
  let ?f = "[0x00, 0x78, 0x00, 0x50, 0x00, 0x00, 0x00, 0xE7, 0x07, 0x06, 0x0F, 0x0A, 0x1E, 0x00, 0x48, 0x00, 0x00, 0x00, 0x00, 0x00] :: byte list"
  have hx: "map byteHex ?f =
      [''00'', ''78'', ''00'', ''50'', ''00'', ''00'', ''00'', ''e7'', ''07'', ''06'',
       ''0f'', ''0a'', ''1e'', ''00'', ''48'', ''00'', ''00'', ''00'', ''00'', ''00'']"
    by code_simp
  have d: "decode ?f = convertBloodPressure
      [''00'', ''78'', ''00'', ''50'', ''00'', ''00'', ''00'', ''e7'', ''07'', ''06'',
       ''0f'', ''0a'', ''1e'', ''00'', ''48'', ''00'', ''00'', ''00'', ''00'', ''00'']"
    by (simp only: decode_map hx)
  show ?thesis unfolding d by code_simp
qed

subsection \<open>Inputs of any length\<close>

lemma parseInt16_elemAt:
  "parseInt16 (elemAt (map byteHex frame) i) =
     (if i < length frame then Num (uint (frame ! i)) else NaN)"
  by (simp add: elemAt_def parseInt16_byteHex parseInt16_Undefined)

lemma parseInt16_elemAt2:
  "i < j \<Longrightarrow>
   parseInt16 (jsPlus (elemAt (map byteHex frame) j) (elemAt (map byteHex frame) i)) =
     (if j < length frame then Num (uint (frame ! i) + 256 * uint (frame ! j)) else NaN)"
  using parseInt16_Undefined_Str [of "byteHex (frame ! i)"]
  by (simp add: elemAt_def parseInt16_byteHex2 parseInt16_NaN)

text \<open>
  Claim C9. The decoder returns a measurement for a byte sequence of any length; no
  operation of \<open>convertBloodPressure\<close> can throw (reading an array or a string out of
  range gives \<open>undefined\<close>, and \<open>parseInt\<close>, \<open>+\<close>, \<open>toString\<close> and \<open>substr\<close> accept
  what they are given), and each of its iterations is proved to terminate. A numeric field whose
  bytes are present has their value, and a numeric field with a missing byte is
  not-a-number. When the status byte is missing the status fields are read from the text
  \<open>00000NaN\<close>, so they are fixed strings that no byte of the input chose.
\<close>

theorem decode_any_length:
  "header (decode frame) = (if 0 < length frame then Num (uint (frame ! 0)) else NaN) \<and>
   systolic (decode frame) =
     (if 2 < length frame then Num (uint (frame ! 1) + 256 * uint (frame ! 2)) else NaN) \<and>
   diastolic (decode frame) =
     (if 4 < length frame then Num (uint (frame ! 3) + 256 * uint (frame ! 4)) else NaN) \<and>
   meanArterialPressure (decode frame) =
     (if 5 < length frame then Num (uint (frame ! 5)) else NaN) \<and>
   year (decode frame) =
     (if 8 < length frame then Num (uint (frame ! 7) + 256 * uint (frame ! 8)) else NaN) \<and>
   month (decode frame) = (if 9 < length frame then Num (uint (frame ! 9)) else NaN) \<and>
   day (decode frame) = (if 10 < length frame then Num (uint (frame ! 10)) else NaN) \<and>
   hours (decode frame) = (if 11 < length frame then Num (uint (frame ! 11)) else NaN) \<and>
   minutes (decode frame) = (if 12 < length frame then Num (uint (frame ! 12)) else NaN) \<and>
   seconds (decode frame) = (if 13 < length frame then Num (uint (frame ! 13)) else NaN) \<and>
   pulseRate (decode frame) =
     (if 15 < length frame then Num (uint (frame ! 14) + 256 * uint (frame ! 15)) else NaN) \<and>
   userID (decode frame) = (if 16 < length frame then Num (uint (frame ! 16)) else NaN) \<and>
   (length frame \<le> 17 \<longrightarrow>
      bodyMovement (decode frame) = ''No body movement'' \<and>
      cuffFit (decode frame) = ''Cuff fits properly'' \<and>
      irregularPulse (decode frame) = ''No irregular pulse'' \<and>
      pulseRateRange (decode frame) = ''In range'' \<and>
      measurementPosition (decode frame) = ''Improper position'' \<and>
      HSD (decode frame) = ''Undefined'')"
proof -
  have "header (decode frame) = (if 0 < length frame then Num (uint (frame ! 0)) else NaN)"
    by (simp only: decode_map convertBloodPressure_def Let_def Measurement.simps parseInt16_elemAt)
  moreover have "systolic (decode frame) =
     (if 2 < length frame then Num (uint (frame ! 1) + 256 * uint (frame ! 2)) else NaN)"
    using parseInt16_elemAt2 [of 1 2 frame]
    by (simp add: decode_map convertBloodPressure_def Let_def)
  moreover have "diastolic (decode frame) =
     (if 4 < length frame then Num (uint (frame ! 3) + 256 * uint (frame ! 4)) else NaN)"
    using parseInt16_elemAt2 [of 3 4 frame]
    by (simp add: decode_map convertBloodPressure_def Let_def)
  moreover have "meanArterialPressure (decode frame) =
     (if 5 < length frame then Num (uint (frame ! 5)) else NaN)"
    by (simp only: decode_map convertBloodPressure_def Let_def Measurement.simps parseInt16_elemAt)
  moreover have "year (decode frame) =
     (if 8 < length frame then Num (uint (frame ! 7) + 256 * uint (frame ! 8)) else NaN)"
    using parseInt16_elemAt2 [of 7 8 frame]
    by (simp add: decode_map convertBloodPressure_def Let_def)
  moreover have "month (decode frame) = (if 9 < length frame then Num (uint (frame ! 9)) else NaN)"
    "day (decode frame) = (if 10 < length frame then Num (uint (frame ! 10)) else NaN)"
    "hours (decode frame) = (if 11 < length frame then Num (uint (frame ! 11)) else NaN)"
    "minutes (decode frame) = (if 12 < length frame then Num (uint (frame ! 12)) else NaN)"
    "seconds (decode frame) = (if 13 < length frame then Num (uint (frame ! 13)) else NaN)"
    by (simp_all only: decode_map convertBloodPressure_def Let_def Measurement.simps parseInt16_elemAt)
  moreover have "pulseRate (decode frame) =
     (if 15 < length frame then Num (uint (frame ! 14) + 256 * uint (frame ! 15)) else NaN)"
    using parseInt16_elemAt2 [of 14 15 frame]
    by (simp add: decode_map convertBloodPressure_def Let_def)
  moreover have "userID (decode frame) = (if 16 < length frame then Num (uint (frame ! 16)) else NaN)"
    by (simp only: decode_map convertBloodPressure_def Let_def Measurement.simps parseInt16_elemAt)
  moreover have "bodyMovement (decode frame) = ''No body movement'' \<and>
      cuffFit (decode frame) = ''Cuff fits properly'' \<and>
      irregularPulse (decode frame) = ''No irregular pulse'' \<and>
      pulseRateRange (decode frame) = ''In range'' \<and>
      measurementPosition (decode frame) = ''Improper position'' \<and>
      HSD (decode frame) = ''Undefined''" if short: "length frame \<le> 17"
  proof -
    from short have "elemAt (map byteHex frame) 17 = Undefined" by (simp add: elemAt_def)
    then have flags: "hex2bin (elemAt (map byteHex frame) 17) = ''00000NaN''"
      by (simp only: hex2bin_Undefined)
    show ?thesis
      by (simp add: decode_map convertBloodPressure_def Let_def flags charAt_def
          pulseRateConvert_def HSDConvert_def)
  qed
  ultimately show ?thesis by blast
qed

theorem decode_any_length_witness:
  "length ([] :: byte list) \<le> 17 \<and>
   header (decode []) = NaN \<and> systolic (decode []) = NaN \<and> diastolic (decode []) = NaN \<and>
   meanArterialPressure (decode []) = NaN \<and> year (decode []) = NaN \<and>
   month (decode []) = NaN \<and> day (decode []) = NaN \<and> hours (decode []) = NaN \<and>
   minutes (decode []) = NaN \<and> seconds (decode []) = NaN \<and> pulseRate (decode []) = NaN \<and>
   userID (decode []) = NaN \<and>
   bodyMovement (decode []) = ''No body movement'' \<and>
   cuffFit (decode []) = ''Cuff fits properly'' \<and>
   irregularPulse (decode []) = ''No irregular pulse'' \<and>
   pulseRateRange (decode []) = ''In range'' \<and>
   measurementPosition (decode []) = ''Improper position'' \<and>
   HSD (decode []) = ''Undefined''"
  using decode_any_length [of "[]"] by simp

section \<open>Properties of the callback-driven operations\<close>

subsection \<open>startScan\<close>

lemma scanListener_no_match:
  "\<not> nameMatches device \<Longrightarrow> scanListener None device st = st"
  by (cases device) (simp_all add: scanListener_def)

lemma deliverScan_stopped: "\<not> scanning st \<Longrightarrow> deliverScan evs st = st"
  by (cases evs) auto

lemma scanListener_fulfilled:
  "scanResult (scanListener error device st) = Fulfilled d \<Longrightarrow>
   scanResult st = Fulfilled d \<or> (device = Some d \<and> name d = Some deviceName)"
  by (auto simp: scanListener_def stopDeviceScan_def resolve_def reject_def nameMatches_def
      Let_def split: option.splits if_splits promise.splits)

lemma deliverScan_fulfilled:
  "scanResult (deliverScan evs st) = Fulfilled d \<Longrightarrow>
   scanResult st = Fulfilled d \<or> (name d = Some deviceName \<and> (\<exists>e. (e, Some d) \<in> set evs))"
proof (induction evs arbitrary: st)
  case Nil
  then show ?case by simp
next
  case (Cons ev evs)
  obtain error device where ev: "ev = (error, device)" by (cases ev)
  show ?case
  proof (cases "scanning st")
    case True
    with Cons.prems ev
    have "scanResult (deliverScan evs (scanListener error device st)) = Fulfilled d" by simp
    from Cons.IH [OF this] show ?thesis
    proof
      assume "scanResult (scanListener error device st) = Fulfilled d"
      from scanListener_fulfilled [OF this] ev show ?thesis by auto
    next
      assume "name d = Some deviceName \<and> (\<exists>e. (e, Some d) \<in> set evs)"
      then show ?thesis by auto
    qed
  next
    case False
    with Cons.prems ev show ?thesis by simp
  qed
qed

lemma deliverScan_first_match:
  assumes "scanning st" and "scanResult st = Pending"
    and "\<forall>(e, dv) \<in> set pre. e = None \<and> \<not> nameMatches dv"
    and "name d = Some deviceName"
  shows "deliverScan (pre @ (None, Some d) # post) st =
         st\<lparr>scanning := False, stopCalls := Suc (stopCalls st), scanResult := Fulfilled d\<rparr>"
  using assms
proof (induction pre arbitrary: st)
  case Nil
  then show ?case
    by (simp add: scanListener_def nameMatches_def stopDeviceScan_def resolve_def
        deliverScan_stopped)
next
  case (Cons ev pre)
  obtain error device where ev: "ev = (error, device)" by (cases ev)
  with Cons.prems have "error = None" "\<not> nameMatches device" by auto
  then have "scanListener error device st = st" by (simp add: scanListener_no_match)
  with Cons ev show ?case by simp
qed

text \<open>
  Claim C5. The promise of \<open>startScan\<close> is fulfilled only with a device whose advertised
  name is exactly \<open>BM77\<close>, and that device was delivered by the stack. If no delivered
  device has that name (names such as \<open>BM770\<close> or \<open>bm77\<close>, a \<open>null\<close> name, no device),
  the promise is never fulfilled. On the first advertisement with the exact name, the
  ones before it being neither errors nor matches, \<open>stopDeviceScan\<close> is called once, the
  scan is off and the promise is fulfilled with that device, whatever follows.
\<close>

theorem startScan_resolves_only_on_BM77:
  "(scanResult (startScan evs) = Fulfilled d \<longrightarrow>
      name d = Some ''BM77'' \<and> (\<exists>e. (e, Some d) \<in> set evs)) \<and>
   ((\<forall>e dv. (e, Some dv) \<in> set evs \<longrightarrow> name dv \<noteq> Some ''BM77'') \<longrightarrow>
      (\<forall>x. scanResult (startScan evs) \<noteq> Fulfilled x)) \<and>
   ((\<forall>(e, dv) \<in> set pre. e = None \<and> (\<forall>x. dv = Some x \<longrightarrow> name x \<noteq> Some ''BM77'')) \<and>
    name d = Some ''BM77'' \<longrightarrow>
      startScan (pre @ (None, Some d) # post) =
        \<lparr>scanning = False, stopCalls = 1, scanResult = Fulfilled d\<rparr>)"
proof -
  have only: "name x = Some ''BM77'' \<and> (\<exists>e. (e, Some x) \<in> set evs)"
    if "scanResult (startScan evs) = Fulfilled x" for x
    using deliverScan_fulfilled
      [of evs "\<lparr>scanning = True, stopCalls = 0, scanResult = Pending\<rparr>" x] that
    by (simp add: startScan_def deviceName_def)
  have first: "startScan (pre @ (None, Some d) # post) =
        \<lparr>scanning = False, stopCalls = 1, scanResult = Fulfilled d\<rparr>"
    if pre: "\<forall>(e, dv) \<in> set pre. e = None \<and> (\<forall>x. dv = Some x \<longrightarrow> name x \<noteq> Some ''BM77'')"
      and d: "name d = Some ''BM77''"
  proof -
    from pre have "\<forall>(e, dv) \<in> set pre. e = None \<and> \<not> nameMatches dv"
      by (auto simp: nameMatches_def deviceName_def split: option.splits)
    from deliverScan_first_match
      [of "\<lparr>scanning = True, stopCalls = 0, scanResult = Pending\<rparr>" pre d post] this d
    show ?thesis
      by (simp add: startScan_def deviceName_def)
  qed
  from only first show ?thesis by blast
qed

text \<open>
  The names \<open>BM770\<close>, \<open>bm77\<close> and \<open>null\<close> leave the scan pending; the first \<open>BM77\<close>
  settles it, and a second one changes nothing.
\<close>

theorem startScan_resolves_only_on_BM77_witness:
  "name \<lparr>deviceId = ''d'', name = Some ''BM77''\<rparr> = Some ''BM77'' \<and>
   startScan ([(None, Some \<lparr>deviceId = ''a'', name = Some ''BM770''\<rparr>),
               (None, Some \<lparr>deviceId = ''b'', name = Some ''bm77''\<rparr>),
               (None, Some \<lparr>deviceId = ''c'', name = None\<rparr>),
               (None, None)] @
              (None, Some \<lparr>deviceId = ''d'', name = Some ''BM77''\<rparr>) #
              [(None, Some \<lparr>deviceId = ''e'', name = Some ''BM77''\<rparr>)]) =
     \<lparr>scanning = False, stopCalls = 1,
      scanResult = Fulfilled \<lparr>deviceId = ''d'', name = Some ''BM77''\<rparr>\<rparr> \<and>
   (\<forall>x. scanResult (startScan [(None, Some \<lparr>deviceId = ''a'', name = Some ''BM770''\<rparr>),
                                (None, Some \<lparr>deviceId = ''b'', name = Some ''bm77''\<rparr>),
                                (None, Some \<lparr>deviceId = ''c'', name = None\<rparr>),
                                (None, None)]) \<noteq> Fulfilled x)"
proof -
  let ?pre = "[(None, Some \<lparr>deviceId = ''a'', name = Some ''BM770''\<rparr>),
               (None, Some \<lparr>deviceId = ''b'', name = Some ''bm77''\<rparr>),
               (None, Some \<lparr>deviceId = ''c'', name = None\<rparr>),
               (None :: BleError option, None)]"
  let ?d = "\<lparr>deviceId = ''d'', name = Some ''BM77''\<rparr>"
  have h1: "\<forall>(e, dv) \<in> set ?pre. e = None \<and> (\<forall>x. dv = Some x \<longrightarrow> name x \<noteq> Some ''BM77'')"
    by simp
  have h2: "name ?d = Some ''BM77''" by simp
  have h3: "\<forall>e dv. (e, Some dv) \<in> set ?pre \<longrightarrow> name dv \<noteq> Some ''BM77''" by auto
  note t = startScan_resolves_only_on_BM77
    [of ?pre ?d ?pre "[(None, Some \<lparr>deviceId = ''e'', name = Some ''BM77''\<rparr>)]"]
  from t h1 h2 have a: "startScan (?pre @ (None, Some ?d) #
       [(None, Some \<lparr>deviceId = ''e'', name = Some ''BM77''\<rparr>)]) =
     \<lparr>scanning = False, stopCalls = 1, scanResult = Fulfilled ?d\<rparr>" by blast
  from t h3 have b: "\<forall>x. scanResult (startScan ?pre) \<noteq> Fulfilled x" by blast
  show ?thesis by (rule conjI [OF h2 conjI [OF a b]])
qed

lemma connect_snoc: "connect t0 (evs @ [ev]) = connectStep (connect t0 evs) ev"
  by (simp add: connect_def)

lemma connect_append: "connect t0 (pre @ post) = foldl connectStep (connect t0 pre) post"
  by (simp add: connect_def)

lemma stuck_stays: "stage st = Stuck \<Longrightarrow> foldl connectStep st evs = st"
proof (induction evs)
  case Nil
  show ?case by simp
next
  case (Cons ev evs)
  obtain t k where ev: "ev = (t, k)" by (cases ev)
  from Cons.prems have "connectStep st (t, k) = st" by (cases k) simp_all
  with Cons ev show ?case by simp
qed

text \<open>
  Claim C4 says that a failed discovery makes \<open>connect\<close> fail with the error. The code
  does not: when the connection has succeeded, the timer callback has run and the
  discovery is rejected, the promise of \<open>connect\<close> is still pending, and it stays pending
  whatever the stack delivers afterwards. The error reaches nobody.
\<close>

theorem connect_hangs_on_discovery_failure:
  "connect t0 ([(t1, ConnectSucceeded), (t1 + settleDelay + k, TimerFired),
                (t2, DiscoverFailed e)] @ evs) =
     \<lparr>stage = Stuck, connectPromise = Pending, discoverPromise = Pending,
      trace = [(t0, CallConnect), (t1, ConsoleLog ''Device was connected''),
               (t1, SetTimeout 1600), (t1 + settleDelay + k, CallDiscover)]\<rparr>"
proof -
  have "connect t0 [(t1, ConnectSucceeded), (t1 + settleDelay + k, TimerFired),
                (t2, DiscoverFailed e)] =
     \<lparr>stage = Stuck, connectPromise = Pending, discoverPromise = Pending,
      trace = [(t0, CallConnect), (t1, ConsoleLog ''Device was connected''),
               (t1, SetTimeout 1600), (t1 + settleDelay + k, CallDiscover)]\<rparr>"
    by (simp add: connect_def connectInit_def settleDelay_def)
  then show ?thesis
    by (simp only: connect_append) (simp add: stuck_stays)
qed

subsection \<open>The settling delay\<close>

lemma connect_timing_inv:
  "(\<forall>t_d. (t_d, CallDiscover) \<in> set (trace (connect t0 evs)) \<longrightarrow>
      (\<exists>t_c. (t_c, ConsoleLog ''Device was connected'') \<in> set (trace (connect t0 evs)) \<and>
             (t_c, ConnectSucceeded) \<in> set evs \<and> t_c + 1600 \<le> t_d)) \<and>
   (\<forall>due. stage (connect t0 evs) = AwaitTimer due \<longrightarrow>
      (\<exists>t_c. (t_c, ConsoleLog ''Device was connected'') \<in> set (trace (connect t0 evs)) \<and>
             (t_c, ConnectSucceeded) \<in> set evs \<and> due = t_c + 1600))"
proof (induction evs rule: rev_induct)
  case Nil
  show ?case by (simp add: connect_def connectInit_def)
next
  case (snoc ev evs)
  obtain t k where ev: "ev = (t, k)" by (cases ev)
  let ?st = "connect t0 evs"
  show ?case
  proof (cases k)
    case ConnectSucceeded
    with snoc ev show ?thesis
      by (cases "stage ?st = AwaitConnect") (auto simp: connect_snoc settleDelay_def)
  next
    case (ConnectFailed e)
    with snoc ev show ?thesis
      by (cases "stage ?st = AwaitConnect") (auto simp: connect_snoc)
  next
    case TimerFired
    with snoc ev show ?thesis
      by (cases "stage ?st") (auto simp: connect_snoc)
  next
    case DiscoverSucceeded
    with snoc ev show ?thesis
      by (cases "stage ?st = AwaitDiscover") (auto simp: connect_snoc)
  next
    case (DiscoverFailed e)
    with snoc ev show ?thesis
      by (cases "stage ?st = AwaitDiscover") (auto simp: connect_snoc)
  next
    case DeviceDisconnected
    with snoc ev show ?thesis
      by (cases "stage ?st = Registered") (auto simp: connect_snoc)
  qed
qed

text \<open>
  Claim C6. On the clock of the events, every discovery request of a \<open>connect\<close> call is
  made at least 1600 milliseconds after the time at which that call saw the connection
  succeed.
\<close>

theorem discovery_not_before_delay:
  "(t_d, CallDiscover) \<in> set (trace (connect t0 evs)) \<Longrightarrow>
   \<exists>t_c. (t_c, ConnectSucceeded) \<in> set evs \<and>
         (t_c, ConsoleLog ''Device was connected'') \<in> set (trace (connect t0 evs)) \<and>
         t_c + 1600 \<le> t_d"
  using connect_timing_inv [of t0 evs] by blast

text \<open>
  The connection succeeds at 5; a timer run at 900 would be too early and requests
  nothing; the discovery is requested at 1605.
\<close>

theorem discovery_not_before_delay_witness:
  "(1605, CallDiscover) \<in> set (trace (connect 0 [(5, ConnectSucceeded), (900, TimerFired), (1605, TimerFired)])) \<and>
   (900, CallDiscover) \<notin> set (trace (connect 0 [(5, ConnectSucceeded), (900, TimerFired), (1605, TimerFired)])) \<and>
   (\<exists>t_c. (t_c, ConnectSucceeded) \<in> set [(5, ConnectSucceeded), (900, TimerFired), (1605, TimerFired)] \<and>
         (t_c, ConsoleLog ''Device was connected'') \<in>
           set (trace (connect 0 [(5, ConnectSucceeded), (900, TimerFired), (1605, TimerFired)])) \<and>
         t_c + 1600 \<le> (1605 :: nat))"
proof -
  have tr: "trace (connect 0 [(5, ConnectSucceeded), (900, TimerFired), (1605, TimerFired)]) =
      [(0, CallConnect), (5, ConsoleLog ''Device was connected''), (5, SetTimeout 1600),
       (1605, CallDiscover)]"
    by (simp add: connect_def connectInit_def settleDelay_def)
  have a: "(1605, CallDiscover) \<in> set (trace (connect 0 [(5, ConnectSucceeded), (900, TimerFired), (1605, TimerFired)]))"
    by (simp add: tr)
  have b: "(900, CallDiscover) \<notin> set (trace (connect 0 [(5, ConnectSucceeded), (900, TimerFired), (1605, TimerFired)]))"
    by (simp add: tr)
  from discovery_not_before_delay [OF a] a b show ?thesis by blast
qed

subsection \<open>The disconnect callback\<close>

text \<open>
  Claim C7 says that \<open>onDisconnect\<close> is invoked exactly once per session. The listener
  registered by \<open>connect\<close> is never removed, so it runs at every disconnection event
  that the stack emits for the device: with two such events the callback is invoked
  twice.
\<close>

theorem onDisconnect_fires_twice:
  "onDisconnectCalls (trace (connect 0
     [(0, ConnectSucceeded), (1600, TimerFired), (1700, DiscoverSucceeded),
      (5000, DeviceDisconnected), (9000, DeviceDisconnected)])) =
   [(5000, OnDisconnect DISCONNECTED), (9000, OnDisconnect DISCONNECTED)]"
  by (simp add: connect_def connectInit_def settleDelay_def onDisconnectCalls_def resolve_def)

lemma onDisconnectCalls_append:
  "onDisconnectCalls (xs @ ys) = onDisconnectCalls xs @ onDisconnectCalls ys"
  by (simp add: onDisconnectCalls_def)

lemma connect_disconnect_inv:
  "(\<forall>t s. (t, OnDisconnect s) \<in> set (trace (connect t0 evs)) \<longrightarrow> s = DISCONNECTED) \<and>
   (stage (connect t0 evs) \<noteq> Registered \<longrightarrow> onDisconnectCalls (trace (connect t0 evs)) = []) \<and>
   (stage (connect t0 evs) = Registered \<longrightarrow>
      discoverPromise (connect t0 evs) = Fulfilled () \<and>
      connectPromise (connect t0 evs) = Fulfilled ()) \<and>
   (stage (connect t0 evs) = Registered \<or> stage (connect t0 evs) = Failed \<or>
      discoverPromise (connect t0 evs) = Pending \<and>
      connectPromise (connect t0 evs) = Pending)"
proof (induction evs rule: rev_induct)
  case Nil
  show ?case by (simp add: connect_def connectInit_def onDisconnectCalls_def)
next
  case (snoc ev evs)
  obtain t k where ev: "ev = (t, k)" by (cases ev)
  let ?st = "connect t0 evs"
  show ?case
  proof (cases k)
    case ConnectSucceeded
    with snoc ev show ?thesis
      by (cases "stage ?st = AwaitConnect")
        (auto simp: connect_snoc onDisconnectCalls_def)
  next
    case (ConnectFailed e)
    with snoc ev show ?thesis
      by (cases "stage ?st = AwaitConnect") (auto simp: connect_snoc)
  next
    case TimerFired
    with snoc ev show ?thesis
      by (cases "stage ?st") (auto simp: connect_snoc onDisconnectCalls_def)
  next
    case DiscoverSucceeded
    with snoc ev show ?thesis
      by (cases "stage ?st = AwaitDiscover") (auto simp: connect_snoc resolve_def)
  next
    case (DiscoverFailed e)
    with snoc ev show ?thesis
      by (cases "stage ?st = AwaitDiscover") (auto simp: connect_snoc)
  next
    case DeviceDisconnected
    with snoc ev show ?thesis
      by (cases "stage ?st = Registered") (auto simp: connect_snoc)
  qed
qed

text \<open>
  Claim C7, amended. \<open>onDisconnect\<close> is only ever invoked with the status
  \<open>DISCONNECTED\<close>; as long as the call has not registered its listener (which it does
  once the discovery has succeeded) the callback has not been invoked; and from then on
  it is invoked once for each disconnection event delivered, neither more nor less.
\<close>

theorem onDisconnect_after_discovery_per_event:
  "(\<forall>t s. (t, OnDisconnect s) \<in> set (trace (connect t0 evs)) \<longrightarrow> s = DISCONNECTED) \<and>
   (stage (connect t0 evs) \<noteq> Registered \<longrightarrow> onDisconnectCalls (trace (connect t0 evs)) = []) \<and>
   (stage (connect t0 evs) = Registered \<longrightarrow>
      discoverPromise (connect t0 evs) = Fulfilled () \<and>
      length (onDisconnectCalls (trace (connect t0 (evs @ post)))) =
        length (onDisconnectCalls (trace (connect t0 evs))) +
        length (filter (\<lambda>(t, k). k = DeviceDisconnected) post))"
proof -
  have count: "stage st = Registered \<Longrightarrow>
      stage (foldl connectStep st post) = Registered \<and>
      length (onDisconnectCalls (trace (foldl connectStep st post))) =
        length (onDisconnectCalls (trace st)) +
        length (filter (\<lambda>(t, k). k = DeviceDisconnected) post)" for st
  proof (induction post rule: rev_induct)
    case Nil
    then show ?case by simp
  next
    case (snoc ev post)
    obtain t k where ev: "ev = (t, k)" by (cases ev)
    from snoc ev show ?case
      by (cases k) (simp_all add: onDisconnectCalls_def)
  qed
  from connect_disconnect_inv [of t0 evs] count [of "connect t0 evs"]
  show ?thesis by (simp add: connect_append)
qed

text \<open>
  A disconnection during the settling delay invokes nothing; one after the discovery
  invokes the callback once.
\<close>

theorem onDisconnect_after_discovery_per_event_witness:
  "stage (connect 0 [(0, ConnectSucceeded), (1600, TimerFired), (1700, DiscoverSucceeded)]) = Registered \<and>
   stage (connect 0 [(0, ConnectSucceeded), (700, DeviceDisconnected)]) \<noteq> Registered \<and>
   onDisconnectCalls (trace (connect 0 [(0, ConnectSucceeded), (700, DeviceDisconnected)])) = [] \<and>
   length (onDisconnectCalls (trace (connect 0
     ([(0, ConnectSucceeded), (1600, TimerFired), (1700, DiscoverSucceeded)] @
      [(5000, DeviceDisconnected)])))) = 1"
proof -
  have a: "stage (connect 0 [(0, ConnectSucceeded), (1600, TimerFired), (1700, DiscoverSucceeded)]) = Registered"
    by (simp add: connect_def connectInit_def settleDelay_def)
  have b: "stage (connect 0 [(0, ConnectSucceeded), (700, DeviceDisconnected)]) \<noteq> Registered"
    by (simp add: connect_def connectInit_def settleDelay_def)
  have c: "onDisconnectCalls (trace (connect 0 [(0, ConnectSucceeded), (1600, TimerFired), (1700, DiscoverSucceeded)])) = []"
    by (simp add: connect_def connectInit_def settleDelay_def onDisconnectCalls_def)
  from onDisconnect_after_discovery_per_event
    [of 0 "[(0, ConnectSucceeded), (700, DeviceDisconnected)]"] b
  have d: "onDisconnectCalls (trace (connect 0 [(0, ConnectSucceeded), (700, DeviceDisconnected)])) = []"
    by blast
  from onDisconnect_after_discovery_per_event
    [of 0 "[(0, ConnectSucceeded), (1600, TimerFired), (1700, DiscoverSucceeded)]"
       "[(5000, DeviceDisconnected)]"] a
  have e: "length (onDisconnectCalls (trace (connect 0
     ([(0, ConnectSucceeded), (1600, TimerFired), (1700, DiscoverSucceeded)] @
      [(5000, DeviceDisconnected)])))) = 1"
    by (simp add: c)
  show ?thesis by (rule conjI [OF a conjI [OF b conjI [OF d e]]])
qed

subsection \<open>receiveData\<close>

lemma monitorListener_decode:
  "monitorListener dec error result =
     (case error of None \<Rightarrow> [] | Some e \<Rightarrow> [OnError e]) @
     (case truthyValue result of None \<Rightarrow> [] | Some v \<Rightarrow> [OnData (decode (dec v))])"
  by (simp add: monitorListener_def base64ToHex_def decode_def split: option.splits)

lemma in_concat_map:
  "y \<in> set (f x) \<Longrightarrow> x \<in> set ns \<Longrightarrow> y \<in> set (concat (map f ns))"
  by auto

lemma notify_monitors: "monitors (notify dec ns st) = monitors st"
  by (induction ns arbitrary: st) auto

lemma notify_single_monitor:
  "monitors st = [(h, service, characteristicNotify)] \<Longrightarrow>
   calls (notify dec ns st) =
     calls st @ concat (map (\<lambda>(error, result). monitorListener dec error result) ns)"
proof (induction ns arbitrary: st)
  case Nil
  show ?case by simp
next
  case (Cons n ns)
  obtain error result where n: "n = (error, result)" by (cases n)
  let ?st = "st\<lparr>calls := calls st @ monitorListener dec error result\<rparr>"
  have "monitors ?st = [(h, service, characteristicNotify)]" using Cons.prems by simp
  from Cons.IH [OF this] Cons.prems n show ?case by simp
qed

text \<open>
  Claim C8 says that \<open>onData\<close> is invoked whenever a value is present. The listener tests
  \<open>result?.value\<close>, which is false for the empty string: a notification whose value is
  present and empty is dropped, and no callback is called.
\<close>

theorem empty_value_not_dispatched:
  "charValue \<lparr>charValue = Some []\<rparr> = Some [] \<and>
   calls (notify (map of_char) [(None, Some \<lparr>charValue = Some []\<rparr>)]
     (snd (receiveData \<lparr>monitors = [], calls = []\<rparr>))) = []"
proof -
  have m: "monitors (snd (receiveData \<lparr>monitors = [], calls = []\<rparr>)) =
      [(0, service, characteristicNotify)]"
    and c: "calls (snd (receiveData \<lparr>monitors = [], calls = []\<rparr>)) = []"
    by (simp_all add: receiveData_def monitorCharacteristicForService_def)
  show ?thesis
    by (simp add: notify_single_monitor [OF m] c monitorListener_def truthyValue_def)
qed

text \<open>
  Claim C8, amended. After \<open>receiveData\<close>, the calls of the caller's callbacks are,
  notification by notification and in order: \<open>onError(error)\<close> if the notification
  carries an error, then \<open>onData\<close> of the decoded measurement if it carries a result
  whose value is neither \<open>null\<close> nor the empty string, and nothing else. So every error
  of the notifications delivered is reported and every non-empty value is decoded and
  dispatched, wherever errors occurred before.
\<close>

theorem notifications_dispatched_nonempty_value:
  "calls (notify dec ns (snd (receiveData \<lparr>monitors = [], calls = []\<rparr>))) =
     concat (map (\<lambda>(error, result).
        (case error of None \<Rightarrow> [] | Some e \<Rightarrow> [OnError e]) @
        (case result of
           None \<Rightarrow> []
         | Some c \<Rightarrow>
             (case charValue c of
                None \<Rightarrow> []
              | Some v \<Rightarrow> if v = [] then [] else [OnData (decode (dec v))]))) ns) \<and>
   ((error, result) \<in> set ns \<longrightarrow>
      (\<forall>e. error = Some e \<longrightarrow>
         OnError e \<in> set (calls (notify dec ns (snd (receiveData \<lparr>monitors = [], calls = []\<rparr>))))) \<and>
      (\<forall>c v. result = Some c \<and> charValue c = Some v \<and> v \<noteq> [] \<longrightarrow>
         OnData (decode (dec v)) \<in>
           set (calls (notify dec ns (snd (receiveData \<lparr>monitors = [], calls = []\<rparr>))))))"
proof -
  let ?st = "snd (receiveData \<lparr>monitors = [], calls = []\<rparr>)"
  let ?data = "\<lambda>result. case result of
           None \<Rightarrow> []
         | Some c \<Rightarrow>
             (case charValue c of
                None \<Rightarrow> []
              | Some v \<Rightarrow> if v = [] then [] else [OnData (decode (dec v))])"
  let ?f = "\<lambda>(error, result).
        (case error of None \<Rightarrow> [] | Some e \<Rightarrow> [OnError e]) @ ?data result"
  have m: "monitors ?st = [(0, service, characteristicNotify)]" and c: "calls ?st = []"
    by (simp_all add: receiveData_def monitorCharacteristicForService_def)
  have one: "monitorListener dec error' result' =
      (case error' of None \<Rightarrow> [] | Some e \<Rightarrow> [OnError e]) @ ?data result'" for error' result'
    by (simp add: monitorListener_decode truthyValue_def split: option.splits)
  have all: "calls (notify dec ns ?st) =
     concat (map (\<lambda>(error, result).
        (case error of None \<Rightarrow> [] | Some e \<Rightarrow> [OnError e]) @ ?data result) ns)"
    by (simp only: notify_single_monitor [OF m] c one append_Nil)
  have err: "OnError e \<in> set (calls (notify dec ns ?st))"
    if "(error, result) \<in> set ns" "error = Some e" for e
  proof -
    from that(2) have "OnError e \<in> set (?f (error, result))" by simp
    from in_concat_map [of _ ?f "(error, result)" ns, OF this that(1)]
    show ?thesis by (simp only: all)
  qed
  have dat: "OnData (decode (dec v)) \<in> set (calls (notify dec ns ?st))"
    if "(error, result) \<in> set ns" "result = Some c" "charValue c = Some v" "v \<noteq> []" for c v
  proof -
    from that(2-4) have "OnData (decode (dec v)) \<in> set (?f (error, result))" by simp
    from in_concat_map [of _ ?f "(error, result)" ns, OF this that(1)]
    show ?thesis by (simp only: all)
  qed
  show ?thesis
  proof (intro conjI impI allI)
    show "calls (notify dec ns ?st) =
     concat (map (\<lambda>(error, result).
        (case error of None \<Rightarrow> [] | Some e \<Rightarrow> [OnError e]) @ ?data result) ns)"
      by (rule all)
  next
    fix e assume "(error, result) \<in> set ns" "error = Some e"
    then show "OnError e \<in> set (calls (notify dec ns ?st))" by (rule err)
  next
    fix c v assume "(error, result) \<in> set ns"
      and "result = Some c \<and> charValue c = Some v \<and> v \<noteq> []"
    then show "OnData (decode (dec v)) \<in> set (calls (notify dec ns ?st))"
      using dat [of c v] by simp
  qed
qed

text \<open>
  An error notification, an empty value and a value: the error and the non-empty value
  reach the callbacks, in that order, and the empty value reaches none.
\<close>

theorem notifications_dispatched_nonempty_value_witness:
  "(Some \<lparr>errorCode = 201, message = ''gone''\<rparr>, None) \<in>
     set [(Some \<lparr>errorCode = 201, message = ''gone''\<rparr>, None),
          (None, Some \<lparr>charValue = Some []\<rparr>),
          (None, Some \<lparr>charValue = Some ''AHgA''\<rparr>)] \<and>
   (None, Some \<lparr>charValue = Some ''AHgA''\<rparr>) \<in>
     set [(Some \<lparr>errorCode = 201, message = ''gone''\<rparr>, None),
          (None, Some \<lparr>charValue = Some []\<rparr>),
          (None, Some \<lparr>charValue = Some ''AHgA''\<rparr>)] \<and>
   ''AHgA'' \<noteq> [] \<and>
   OnError \<lparr>errorCode = 201, message = ''gone''\<rparr> \<in>
     set (calls (notify (\<lambda>b. [0, 120, 0])
       [(Some \<lparr>errorCode = 201, message = ''gone''\<rparr>, None),
        (None, Some \<lparr>charValue = Some []\<rparr>),
        (None, Some \<lparr>charValue = Some ''AHgA''\<rparr>)]
       (snd (receiveData \<lparr>monitors = [], calls = []\<rparr>)))) \<and>
   OnData (decode [0, 120, 0]) \<in>
     set (calls (notify (\<lambda>b. [0, 120, 0])
       [(Some \<lparr>errorCode = 201, message = ''gone''\<rparr>, None),
        (None, Some \<lparr>charValue = Some []\<rparr>),
        (None, Some \<lparr>charValue = Some ''AHgA''\<rparr>)]
       (snd (receiveData \<lparr>monitors = [], calls = []\<rparr>)))) \<and>
   calls (notify (\<lambda>b. [0, 120, 0])
     [(Some \<lparr>errorCode = 201, message = ''gone''\<rparr>, None),
      (None, Some \<lparr>charValue = Some []\<rparr>),
      (None, Some \<lparr>charValue = Some ''AHgA''\<rparr>)]
     (snd (receiveData \<lparr>monitors = [], calls = []\<rparr>))) =
   [OnError \<lparr>errorCode = 201, message = ''gone''\<rparr>, OnData (decode [0, 120, 0])]"
proof -
  let ?ns = "[(Some \<lparr>errorCode = 201, message = ''gone''\<rparr>, None),
          (None, Some \<lparr>charValue = Some []\<rparr>),
          (None, Some \<lparr>charValue = Some ''AHgA''\<rparr>)]"
  let ?cs = "calls (notify (\<lambda>b. [0, 120, 0]) ?ns (snd (receiveData \<lparr>monitors = [], calls = []\<rparr>)))"
  have a: "(Some \<lparr>errorCode = 201, message = ''gone''\<rparr>, None) \<in> set ?ns" by simp
  have b: "(None, Some \<lparr>charValue = Some ''AHgA''\<rparr>) \<in> set ?ns" by simp
  have n: "''AHgA'' \<noteq> []" by simp
  from notifications_dispatched_nonempty_value
    [of "\<lambda>b. [0, 120, 0]" ?ns "Some \<lparr>errorCode = 201, message = ''gone''\<rparr>" None] a
  have e: "OnError \<lparr>errorCode = 201, message = ''gone''\<rparr> \<in> set ?cs" by blast
  from notifications_dispatched_nonempty_value
    [of "\<lambda>b. [0, 120, 0]" ?ns None "Some \<lparr>charValue = Some ''AHgA''\<rparr>"] b
  have d: "OnData (decode [0, 120, 0]) \<in> set ?cs" by simp
  from notifications_dispatched_nonempty_value [of "\<lambda>b. [0, 120, 0]" ?ns]
  have c: "?cs = [OnError \<lparr>errorCode = 201, message = ''gone''\<rparr>, OnData (decode [0, 120, 0])]"
    by simp
  show ?thesis by (rule conjI [OF a conjI [OF b conjI [OF n conjI [OF e conjI [OF d c]]]]])
qed

text \<open>
  Claim C10, amended. \<open>receiveData\<close> opens the monitor on the service and characteristic
  of the class, leaves the calls made so far untouched, and returns no value: the handle
  of the monitor stays with the stack.
\<close>

theorem receiveData_returns_undefined:
  "fst (receiveData st) = None \<and>
   monitors (snd (receiveData st)) =
     monitors st @ [(fst (monitorCharacteristicForService service characteristicNotify st),
                     service, characteristicNotify)] \<and>
   calls (snd (receiveData st)) = calls st"
  by (simp add: receiveData_def monitorCharacteristicForService_def Let_def)

text \<open>
  Claim C10 says that \<open>receiveData\<close> returns the subscription handle. On a stack without
  monitors the handle given out is 0, and \<open>receiveData\<close> does not return it.
\<close>

theorem receiveData_drops_subscription:
  "fst (monitorCharacteristicForService service characteristicNotify
          \<lparr>monitors = [], calls = []\<rparr>) = 0 \<and>
   fst (receiveData \<lparr>monitors = [], calls = []\<rparr>) \<noteq> Some 0"
  by (simp add: receiveData_def monitorCharacteristicForService_def)

end
